theory Spec2Isabelle
  imports Main "HOL-Library.Sublist" "HOL-Library.AList"
begin

section \<open>Python string primitives used by the sanitizer\<close>

text \<open>
  A Python \<open>str\<close> is modelled as a \<open>string\<close> whose characters are the code points below
  256. \<open>isspace\<close> lists the code points in that range that \<open>str.strip()\<close> removes:
  tab, line feed, vertical tab, form feed, carriage return, the four separators
  \<open>0x1C\<close>..\<open>0x1F\<close>, space, \<open>0x85\<close> and \<open>0xA0\<close>.
\<close>

definition isspace :: "char \<Rightarrow> bool" where
  "isspace c \<longleftrightarrow>
     c = CHR 0x09 \<or> c = CHR ''\<newline>'' \<or> c = CHR 0x0B \<or> c = CHR 0x0C \<or> c = CHR 0x0D \<or>
     c = CHR 0x1C \<or> c = CHR 0x1D \<or> c = CHR 0x1E \<or> c = CHR 0x1F \<or> c = CHR '' '' \<or>
     c = CHR 0x85 \<or> c = CHR 0xA0"

text \<open>\<open>s.strip()\<close>: drop the leading and the trailing run of whitespace.\<close>

definition strip :: "string \<Rightarrow> string" where
  "strip s = rev (dropWhile isspace (rev (dropWhile isspace s)))"

text \<open>\<open>s.startswith(p)\<close> and \<open>s.endswith(p)\<close>.\<close>

fun startswith :: "string \<Rightarrow> string \<Rightarrow> bool" where
  "startswith s [] = True"
| "startswith [] (p # ps) = False"
| "startswith (c # cs) (p # ps) = (c = p \<and> startswith cs ps)"

definition endswith :: "string \<Rightarrow> string \<Rightarrow> bool" where
  "endswith s p = startswith (rev s) (rev p)"

text \<open>
  \<open>s.split(sep)\<close> for a one-character separator: the pieces between the separators, in
  order; the empty string gives one empty piece.
\<close>

fun split :: "string \<Rightarrow> char \<Rightarrow> string list" where
  "split [] sep = [[]]"
| "split (c # cs) sep =
     (if c = sep then [] # split cs sep
      else (case split cs sep of
              [] \<Rightarrow> [[c]]
            | l # ls \<Rightarrow> (c # l) # ls))"

text \<open>\<open>sep.join(xs)\<close>.\<close>

fun join :: "string \<Rightarrow> string list \<Rightarrow> string" where
  "join sep [] = []"
| "join sep [x] = x"
| "join sep (x # y # ys) = x @ sep @ join sep (y # ys)"

text \<open>
  \<open>re.sub(r"```sql\n|```\n|```", "", query)\<close>: the text is scanned from the left; at each
  position the alternatives are tried in the order written, a match is deleted and the scan
  goes on after it, and a character where nothing matches is kept.
\<close>

fun re_sub_fence :: "string \<Rightarrow> string" where
  "re_sub_fence [] = []"
| "re_sub_fence (c # cs) =
     (if startswith (c # cs) ''```sql\<newline>'' then re_sub_fence (drop 6 cs)
      else if startswith (c # cs) ''```\<newline>'' then re_sub_fence (drop 3 cs)
      else if startswith (c # cs) ''```'' then re_sub_fence (drop 2 cs)
      else c # re_sub_fence cs)"

section \<open>The query sanitizer\<close>

text \<open>
  The loop of \<open>_clean_sql_query\<close> over the lines: each line is stripped, and kept when it
  is non-empty and starts neither with \<open>#\<close> nor with \<open>--\<close>.
\<close>

fun sql_lines :: "string list \<Rightarrow> string list" where
  "sql_lines [] = []"
| "sql_lines (line # lines) =
     (let line = strip line in
      if line \<noteq> [] \<and> \<not> startswith line ''#'' \<and> \<not> startswith line ''--''
      then line # sql_lines lines
      else sql_lines lines)"

text \<open>The value of \<open>query\<close> before the semicolon check (the source's lines 130 to 145).\<close>

definition joined_query :: "string \<Rightarrow> string" where
  "joined_query raw_query =
     (let query = strip raw_query;
          query = (if startswith query ''```'' then re_sub_fence query else query);
          lines = split query CHR ''\<newline>''
      in join '' '' (sql_lines lines))"

text \<open>\<open>_clean_sql_query\<close> (the leading underscore is not a legal name here).\<close>

definition clean_sql_query :: "string \<Rightarrow> string" where
  "clean_sql_query raw_query =
     (let query = joined_query raw_query in
      if \<not> endswith query '';'' then query @ '';'' else query)"

text \<open>Whether a text contains three backticks in a row.\<close>

fun has_fence :: "string \<Rightarrow> bool" where
  "has_fence [] = False"
| "has_fence (c # cs) = (startswith (c # cs) ''```'' \<or> has_fence cs)"

section \<open>The generator object, the model call and the database\<close>

text \<open>An exception, with its message.\<close>

datatype exn = Exception string

text \<open>
  The fields of a \<open>TextToSQLGenerator\<close> that the pipeline reads and writes. A connection
  or cursor object carries no data of its own here and is always truthy, so a field is
  \<open>None\<close> or \<open>Some ()\<close>. \<open>execute_calls\<close> is a trace that is not in the source: the
  statements \<open>execute_query\<close> was called with, oldest first.
\<close>

record generator =
  db_config :: "(string \<times> string) list"
  conn :: "unit option"
  cursor :: "unit option"
  execute_calls :: "string list"

text \<open>The constructor: \<open>conn\<close> and \<open>cursor\<close> start as \<open>None\<close>.\<close>

definition init :: "(string \<times> string) list \<Rightarrow> generator" where
  "init cfg = \<lparr>db_config = cfg, conn = None, cursor = None, execute_calls = []\<rparr>"

text \<open>
  The database driver, as the behaviour of each call the source makes: \<open>Some e\<close> or
  \<open>Inl e\<close> is the exception the call raises. \<open>cursor_description\<close> gives the column names
  (\<open>desc[0]\<close> of each entry) after a statement was executed, \<open>None\<close> when the statement
  has no result set.
\<close>

record 'v database =
  psycopg2_connect :: "exn option"
  conn_cursor :: "exn option"
  cursor_execute :: "string \<Rightarrow> exn option"
  cursor_description :: "string \<Rightarrow> string list option"
  cursor_fetchall :: "string \<Rightarrow> exn + 'v list list"
  cursor_close :: "exn option"
  conn_close :: "exn option"

text \<open>
  \<open>connect_db\<close>: the exception is reported and raised again, so the result is the exception
  (if any) and the object as the assignments made so far left it.
\<close>

definition connect_db :: "'v database \<Rightarrow> generator \<Rightarrow> exn option \<times> generator" where
  "connect_db db g =
     (case psycopg2_connect db of
        Some e \<Rightarrow> (Some e, g)
      | None \<Rightarrow>
          (let g = g\<lparr>conn := Some ()\<rparr> in
           case conn_cursor db of
             Some e \<Rightarrow> (Some e, g)
           | None \<Rightarrow> (None, g\<lparr>cursor := Some ()\<rparr>)))"

text \<open>
  Standard output, as what writing a text to it does: \<open>None\<close> when the text is written,
  \<open>Some e\<close> when the write raises \<open>e\<close> (a \<open>UnicodeEncodeError\<close> when the stream's
  encoding has no code for a character). A text is written as the list of its code points,
  since the messages hold characters above 255. \<open>print(text)\<close> writes the text and a line
  feed.
\<close>

type_synonym stdout = "nat list \<Rightarrow> exn option"

definition print :: "stdout \<Rightarrow> nat list \<Rightarrow> exn option" where
  "print out text = out (text @ [10])"

text \<open>The message of \<open>close_db\<close>: the check mark U+2705 and \<open>Database connection closed\<close>.\<close>

definition closed_message :: "nat list" where
  "closed_message = 0x2705 # map of_char '' Database connection closed''"

text \<open>
  \<open>close_db\<close>: the exception it raises, or \<open>None\<close> when it returns. The two \<open>close\<close>
  calls are guarded; the \<open>print\<close> after them is not, and stands outside any \<open>try\<close>.
  (The messages of the other functions are not modelled: what is stated about those
  functions is the value they return.)
\<close>

definition close_db :: "'v database \<Rightarrow> stdout \<Rightarrow> generator \<Rightarrow> exn option" where
  "close_db db out g =
     (case (if cursor g \<noteq> None then cursor_close db else None) of
        Some e \<Rightarrow> Some e
      | None \<Rightarrow>
          (case (if conn g \<noteq> None then conn_close db else None) of
             Some e \<Rightarrow> Some e
           | None \<Rightarrow> print out closed_message))"

text \<open>
  \<open>dict(pairs)\<close>: keys in the order of their first occurrence, a later value replacing an
  earlier one.
\<close>

definition dict :: "('k \<times> 'a) list \<Rightarrow> ('k \<times> 'a) list" where
  "dict pairs = foldl (\<lambda>d (k, v). AList.update k v d) [] pairs"

text \<open>The loop that turns the fetched rows into dictionaries.\<close>

primrec row_dicts :: "string list \<Rightarrow> 'v list list \<Rightarrow> (string \<times> 'v) list list" where
  "row_dicts column_names [] = []"
| "row_dicts column_names (row # rows) = dict (zip column_names row) # row_dicts column_names rows"

text \<open>
  The \<open>try\<close> block of \<open>execute_query\<close>. Calling a method of a \<open>None\<close> cursor and iterating
  over a \<open>None\<close> description raise, as in Python.
\<close>

definition execute_try ::
  "'v database \<Rightarrow> generator \<Rightarrow> string \<Rightarrow> (exn + (string \<times> 'v) list list) \<times> generator" where
  "execute_try db g sql_query =
     (case (if conn g = None then connect_db db g else (None, g)) of
        (Some e, g) \<Rightarrow> (Inl e, g)
      | (None, g) \<Rightarrow>
          (if cursor g = None then (Inl (Exception ''AttributeError''), g)
           else case cursor_execute db sql_query of
             Some e \<Rightarrow> (Inl e, g)
           | None \<Rightarrow>
               (case cursor_description db sql_query of
                  None \<Rightarrow> (Inl (Exception ''TypeError''), g)
                | Some column_names \<Rightarrow>
                    (case cursor_fetchall db sql_query of
                       Inl e \<Rightarrow> (Inl e, g)
                     | Inr rows \<Rightarrow> (Inr (row_dicts column_names rows), g)))))"

text \<open>\<open>execute_query\<close>: any exception of the block is reported and \<open>[]\<close> is returned.\<close>

definition execute_query ::
  "'v database \<Rightarrow> generator \<Rightarrow> string \<Rightarrow> (string \<times> 'v) list list \<times> generator" where
  "execute_query db g sql_query =
     (case execute_try db g sql_query of
        (r, g) \<Rightarrow>
          (case r of Inl e \<Rightarrow> [] | Inr results \<Rightarrow> results,
           g\<lparr>execute_calls := execute_calls g @ [sql_query]\<rparr>))"

text \<open>
  \<open>generate_sql_query\<close>. The chain (prompt template and model, with the fixed schema text)
  is the function \<open>sql_chain_run\<close> from the question to the completion or to the exception
  raised. \<open>None\<close> is the source's \<open>return None\<close>.
\<close>

definition generate_sql_query :: "(string \<Rightarrow> exn + string) \<Rightarrow> string \<Rightarrow> string option" where
  "generate_sql_query sql_chain_run natural_language_question =
     (case sql_chain_run natural_language_question of
        Inl e \<Rightarrow> None
      | Inr result \<Rightarrow> Some (clean_sql_query result))"

text \<open>The values stored in the dictionary that \<open>query_from_text\<close> returns.\<close>

datatype 'v pyval = PyNone | PyStr string | PyInt int | PyList "(string \<times> 'v) list list"

text \<open>
  \<open>query_from_text\<close>. The returned dictionary is the list of its items in the order
  written; \<open>not sql_query\<close> holds for \<open>None\<close> and for the empty string.
\<close>

definition query_from_text ::
  "(string \<Rightarrow> exn + string) \<Rightarrow> 'v database \<Rightarrow> generator \<Rightarrow> string \<Rightarrow>
   (string \<times> 'v pyval) list \<times> generator" where
  "query_from_text sql_chain_run db g natural_language_question =
     (let failed =
            ([(''question'', PyStr natural_language_question),
              (''sql_query'', PyNone),
              (''results'', PyList []),
              (''error'', PyStr ''Failed to generate SQL query'')], g)
      in case generate_sql_query sql_chain_run natural_language_question of
           None \<Rightarrow> failed
         | Some sql_query \<Rightarrow>
             (if sql_query = [] then failed
              else case execute_query db g sql_query of
                (results, g) \<Rightarrow>
                  ([(''question'', PyStr natural_language_question),
                    (''sql_query'', PyStr sql_query),
                    (''results'', PyList results),
                    (''num_results'', PyInt (int (length results))),
                    (''error'', PyNone)], g)))"

section \<open>Sample environments\<close>

text \<open>A database that accepts every statement and answers with one row holding a count of 3.\<close>

definition demo_db :: "int database" where
  "demo_db =
     \<lparr>psycopg2_connect = None, conn_cursor = None, cursor_execute = (\<lambda>sql. None),
      cursor_description = (\<lambda>sql. Some [''count'']),
      cursor_fetchall = (\<lambda>sql. Inr [[3]]),
      cursor_close = None, conn_close = None\<rparr>"

text \<open>The same database when it cannot be reached.\<close>

definition refusing_db :: "int database" where
  "refusing_db = demo_db\<lparr>psycopg2_connect := Some (Exception ''connection refused'')\<rparr>"

text \<open>A standard output that encodes every character (UTF-8).\<close>

definition utf8_stdout :: stdout where
  "utf8_stdout text = None"

text \<open>A standard output with the ASCII encoding: a code point above 127 cannot be written.\<close>

definition ascii_stdout :: stdout where
  "ascii_stdout text =
     (if list_all (\<lambda>c. c < 128) text then None else Some (Exception ''UnicodeEncodeError''))"

section \<open>Basic facts about the string primitives\<close>

lemma startswith_prefix: "startswith s p \<longleftrightarrow> prefix p s"
  by (induction s p rule: startswith.induct) auto

lemma endswith_semicolon: "endswith s '';'' \<longleftrightarrow> s \<noteq> [] \<and> last s = CHR '';''"
  by (cases s rule: rev_cases) (simp_all add: endswith_def)

lemma has_fence_sublist: "has_fence s \<longleftrightarrow> sublist ''```'' s"
  by (induction s) (simp_all add: startswith_prefix sublist_Cons_right)

lemma strip_all_space: "\<forall>c\<in>set s. isspace c \<Longrightarrow> strip s = []"
proof -
  assume "\<forall>c\<in>set s. isspace c"
  then have d: "dropWhile isspace s = []" by (induction s) simp_all
  show ?thesis unfolding strip_def d by simp
qed

lemma clean_sql_query_nonempty: "clean_sql_query raw \<noteq> []"
  by (auto simp: clean_sql_query_def Let_def endswith_semicolon)

lemma clean_sql_query_blank: "\<forall>c\<in>set raw. isspace c \<Longrightarrow> clean_sql_query raw = '';''"
  by (simp add: clean_sql_query_def joined_query_def strip_all_space endswith_def)

lemma demo_clean:
  "clean_sql_query ''SELECT COUNT(*) FROM campaign_data'' = ''SELECT COUNT(*) FROM campaign_data;''"
  by (simp add: clean_sql_query_def joined_query_def strip_def isspace_def endswith_def)

lemma execute_try_calls: "execute_calls (snd (execute_try db g sql)) = execute_calls g"
  by (auto simp: execute_try_def connect_db_def Let_def split: option.splits sum.splits)

section \<open>The fence removal leaves no fence\<close>

lemma keep_char_no_fence:
  assumes "\<not> startswith (c # cs) ''```''" and "\<not> has_fence (re_sub_fence cs)"
  shows "\<not> has_fence (c # re_sub_fence cs)"
proof (cases "c = CHR 0x60")
  case False
  then show ?thesis using assms by simp
next
  case True
  show ?thesis
  proof (cases cs)
    case Nil
    then show ?thesis by simp
  next
    case (Cons d ds)
    show ?thesis
    proof (cases "d = CHR 0x60")
      case False
      then show ?thesis using assms Cons by simp
    next
      case d: True
      show ?thesis
      proof (cases ds)
        case Nil
        then show ?thesis using Cons by simp
      next
        case (Cons e es)
        with assms True d \<open>cs = d # ds\<close> have "e \<noteq> CHR 0x60" by auto
        then show ?thesis using assms Cons \<open>cs = d # ds\<close> by simp
      qed
    qed
  qed
qed

lemma re_sub_fence_no_fence: "\<not> has_fence (re_sub_fence s)"
proof (induction s rule: re_sub_fence.induct)
  case 1
  show ?case by simp
next
  case (2 c cs)
  show ?case
  proof (cases "startswith (c # cs) ''```''")
    case True
    then show ?thesis using 2 by (auto simp del: startswith.simps has_fence.simps)
  next
    case False
    then have n: "\<not> startswith (c # cs) ''```sql\<newline>''" "\<not> startswith (c # cs) ''```\<newline>''"
      by (auto simp: startswith_prefix prefix_def)
    with False 2 have "\<not> has_fence (re_sub_fence cs)" by (simp del: startswith.simps)
    with False have "\<not> has_fence (c # re_sub_fence cs)" by (rule keep_char_no_fence)
    then show ?thesis using False n by (simp del: startswith.simps has_fence.simps)
  qed
qed

section \<open>Facts about \<open>strip\<close> and \<open>split\<close>\<close>

lemma strip_Nil: "strip [] = []"
  by (simp add: strip_def)

lemma strip_Cons_space: "isspace c \<Longrightarrow> strip (c # s) = strip s"
  by (simp add: strip_def)

lemma strip_snoc_space:
  assumes "isspace c" shows "strip (s @ [c]) = strip s"
proof (cases "\<forall>x\<in>set s. isspace x")
  case True
  then have "strip (s @ [c]) = []" "strip s = []"
    using assms by (simp_all add: strip_all_space)
  then show ?thesis by simp
next
  case False
  then have "dropWhile isspace (s @ [c]) = dropWhile isspace s @ [c]"
    by (simp add: dropWhile_append)
  then show ?thesis using assms by (simp add: strip_def)
qed

lemma strip_keeps_word:
  assumes "p \<noteq> []" and "\<not> isspace (hd p)" and "\<not> isspace (last p)"
  shows "strip (p @ t) = p @ rev (dropWhile isspace (rev t))"
proof -
  have a: "dropWhile isspace (p @ t) = p @ t"
    using assms(1,2) by (cases p) simp_all
  have b: "dropWhile isspace (rev p) = rev p"
    using assms(1,3) by (cases p rule: rev_cases) simp_all
  have "dropWhile isspace (rev t @ rev p) = dropWhile isspace (rev t) @ rev p"
    using b by (simp add: dropWhile_append)
  then show ?thesis by (simp add: strip_def a)
qed

lemma strip_id:
  assumes "s \<noteq> []" and "\<not> isspace (hd s)" and "\<not> isspace (last s)"
  shows "strip s = s"
  using strip_keeps_word [OF assms, of "[]"] by simp

lemma strip_ends:
  assumes "strip s \<noteq> []"
  shows "\<not> isspace (hd (strip s)) \<and> \<not> isspace (last (strip s))"
proof -
  let ?d = "dropWhile isspace (rev (dropWhile isspace s))"
  have ne: "?d \<noteq> []" using assms by (simp add: strip_def)
  then have h: "\<not> isspace (hd ?d)" by (rule hd_dropWhile)
  have l: "last (strip s) = hd ?d" using ne by (simp add: strip_def last_rev)
  have s: "suffix ?d (rev (dropWhile isspace s))" by (rule suffix_dropWhile)
  have ne2: "dropWhile isspace s \<noteq> []"
  proof
    assume e: "dropWhile isspace s = []"
    have "?d = []" unfolding e by simp
    with ne show False by simp
  qed
  then have h2: "\<not> isspace (hd (dropWhile isspace s))" by (rule hd_dropWhile)
  from s obtain pre where "rev (dropWhile isspace s) = pre @ ?d" by (auto simp: suffix_def)
  then have eq: "dropWhile isspace s = rev ?d @ rev pre"
    by (metis rev_append rev_rev_ident)
  have "rev ?d \<noteq> []" using ne by (metis rev_is_Nil_conv)
  then have "hd (rev ?d @ rev pre) = hd (rev ?d)" by (rule hd_append2)
  then have "hd (dropWhile isspace s) = hd (rev ?d)" using eq by metis
  then have "hd (strip s) = hd (dropWhile isspace s)" unfolding strip_def by (rule sym)
  then show ?thesis using h h2 l by simp
qed

lemma strip_sublist: "sublist (strip s) s"
proof -
  have "sublist (strip s) (dropWhile isspace s)"
    unfolding strip_def by (simp add: sublist_rev_left)
  moreover have "sublist (dropWhile isspace s) s" by simp
  ultimately show ?thesis by (rule sublist_order.order_trans)
qed

lemma split_nonempty: "split s sep \<noteq> []"
  by (induction s) (auto split: list.splits)

lemma split_append_sep: "split (a @ sep # b) sep = split a sep @ split b sep"
proof (induction a)
  case Nil
  show ?case by simp
next
  case (Cons c a)
  obtain l ls where "split a sep = l # ls" using split_nonempty [of a sep] by (cases "split a sep") auto
  then show ?case using Cons by simp
qed

lemma split_snoc_other:
  "c \<noteq> sep \<Longrightarrow> split (s @ [c]) sep = butlast (split s sep) @ [last (split s sep) @ [c]]"
proof (induction s)
  case Nil
  then show ?case by simp
next
  case (Cons d s)
  obtain l ls where l: "split s sep = l # ls" using split_nonempty [of s sep] by (cases "split s sep") auto
  obtain l' ls' where l': "split (s @ [c]) sep = l' # ls'"
    using split_nonempty [of "s @ [c]" sep] by (cases "split (s @ [c]) sep") auto
  show ?case using Cons l l' by (auto split: if_splits)
qed

lemma split_no_sep: "sep \<notin> set s \<Longrightarrow> split s sep = [s]"
  by (induction s) auto

lemma split_lines_no_sep: "l \<in> set (split s sep) \<Longrightarrow> sep \<notin> set l"
proof (induction s arbitrary: l)
  case Nil
  then show ?case by simp
next
  case (Cons c s)
  obtain k ks where k: "split s sep = k # ks" using split_nonempty [of s sep] by (cases "split s sep") auto
  show ?case using Cons k by (auto split: if_splits)
qed

lemma split_hd_prefix: "split s sep = k # ks \<Longrightarrow> prefix k s"
proof (induction s arbitrary: k ks)
  case Nil
  then show ?case by simp
next
  case (Cons c s)
  obtain l ls where l: "split s sep = l # ls" using split_nonempty [of s sep] by (cases "split s sep") auto
  then have "prefix l s" by (rule Cons.IH)
  then show ?case using Cons.prems l by (auto split: if_splits)
qed

lemma split_lines_sublist: "l \<in> set (split s sep) \<Longrightarrow> sublist l s"
proof (induction s arbitrary: l)
  case Nil
  then show ?case by simp
next
  case (Cons c s)
  obtain k ks where k: "split s sep = k # ks" using split_nonempty [of s sep] by (cases "split s sep") auto
  show ?case
  proof (cases "c = sep")
    case True
    then show ?thesis using Cons by (auto simp: sublist_Cons_right)
  next
    case False
    then have "l = c # k \<or> l \<in> set ks" using Cons.prems k by auto
    then show ?thesis
    proof
      assume "l = c # k"
      have "prefix k s" using k by (rule split_hd_prefix)
      then have "prefix l (c # s)" using \<open>l = c # k\<close> by simp
      then show ?thesis by (rule prefix_imp_sublist)
    next
      assume "l \<in> set ks"
      then show ?thesis using Cons.IH k by (auto simp: sublist_Cons_right)
    qed
  qed
qed

section \<open>Facts about the line filter and \<open>join\<close>\<close>

lemma sql_lines_append: "sql_lines (xs @ ys) = sql_lines xs @ sql_lines ys"
  by (induction xs) (simp_all add: Let_def)

lemma sql_lines_strip_eq: "strip a = strip b \<Longrightarrow> sql_lines (a # ls) = sql_lines (b # ls)"
  by (simp add: Let_def)

lemma sql_lines_Cons_space:
  assumes "isspace c"
  shows "sql_lines (split (c # s) CHR ''\<newline>'') = sql_lines (split s CHR ''\<newline>'')"
proof -
  obtain l ls where l: "split s CHR ''\<newline>'' = l # ls"
    using split_nonempty [of s] by (cases "split s CHR ''\<newline>''") auto
  show ?thesis
  proof (cases "c = CHR ''\<newline>''")
    case True
    then show ?thesis by (simp add: Let_def strip_Nil)
  next
    case False
    have "strip (c # l) = strip l" using assms by (rule strip_Cons_space)
    then have "sql_lines ((c # l) # ls) = sql_lines (l # ls)" by (rule sql_lines_strip_eq)
    then show ?thesis using False l by simp
  qed
qed

lemma sql_lines_snoc_space:
  assumes "isspace c"
  shows "sql_lines (split (s @ [c]) CHR ''\<newline>'') = sql_lines (split s CHR ''\<newline>'')"
proof (cases "c = CHR ''\<newline>''")
  case True
  have "split (s @ [c]) CHR ''\<newline>'' = split s CHR ''\<newline>'' @ [[]]"
    using split_append_sep [of s "CHR ''\<newline>''" "[]"] True by simp
  then show ?thesis by (simp add: sql_lines_append Let_def strip_Nil)
next
  case False
  let ?ls = "split s CHR ''\<newline>''"
  have ne: "?ls \<noteq> []" by (rule split_nonempty)
  have a: "split (s @ [c]) CHR ''\<newline>'' = butlast ?ls @ [last ?ls @ [c]]"
    using False by (rule split_snoc_other)
  have "strip (last ?ls @ [c]) = strip (last ?ls)" using assms by (rule strip_snoc_space)
  then have "sql_lines [last ?ls @ [c]] = sql_lines [last ?ls]" by (rule sql_lines_strip_eq)
  then have "sql_lines (butlast ?ls @ [last ?ls @ [c]]) = sql_lines (butlast ?ls @ [last ?ls])"
    by (simp only: sql_lines_append)
  then show ?thesis using a ne by simp
qed

lemma sql_lines_lstrip:
  "sql_lines (split (dropWhile isspace s) CHR ''\<newline>'') = sql_lines (split s CHR ''\<newline>'')"
proof (induction s)
  case Nil
  show ?case by simp
next
  case (Cons c s)
  show ?case
  proof (cases "isspace c")
    case True
    then show ?thesis using Cons sql_lines_Cons_space [OF True, of s] by simp
  next
    case False
    then show ?thesis by simp
  qed
qed

lemma sql_lines_rstrip:
  "sql_lines (split (rev (dropWhile isspace (rev s))) CHR ''\<newline>'')
     = sql_lines (split s CHR ''\<newline>'')"
proof (induction s rule: rev_induct)
  case Nil
  show ?case by simp
next
  case (snoc c s)
  show ?case
  proof (cases "isspace c")
    case True
    then show ?thesis using snoc sql_lines_snoc_space [OF True, of s] by simp
  next
    case False
    then show ?thesis by simp
  qed
qed

lemma sql_lines_strip:
  "sql_lines (split (strip s) CHR ''\<newline>'') = sql_lines (split s CHR ''\<newline>'')"
  unfolding strip_def by (simp only: sql_lines_rstrip sql_lines_lstrip)

lemma sql_lines_kept:
  "l \<in> set (sql_lines ls) \<Longrightarrow>
     l \<noteq> [] \<and> \<not> startswith l ''#'' \<and> \<not> startswith l ''--'' \<and> (\<exists>k\<in>set ls. l = strip k)"
  by (induction ls) (auto simp: Let_def split: if_splits)

lemma sql_lines_none:
  "list_all (\<lambda>line. strip line = [] \<or> startswith (strip line) ''#'' \<or> startswith (strip line) ''--'') ls
     \<Longrightarrow> sql_lines ls = []"
  by (induction ls) (auto simp: Let_def)

lemma join_Cons: "join sep (x # xs) = (if xs = [] then x else x @ sep @ join sep xs)"
  by (cases xs) simp_all

lemma join_hd: "ls \<noteq> [] \<Longrightarrow> hd ls \<noteq> [] \<Longrightarrow> join sep ls \<noteq> [] \<and> hd (join sep ls) = hd (hd ls)"
  by (cases ls) (simp_all add: join_Cons)

lemma join_nonempty: "ls \<noteq> [] \<Longrightarrow> last ls \<noteq> [] \<Longrightarrow> join sep ls \<noteq> []"
  by (induction ls) (auto simp: join_Cons)

lemma join_last:
  "ls \<noteq> [] \<Longrightarrow> last ls \<noteq> [] \<Longrightarrow> last (join sep ls) = last (last ls)"
proof (induction ls)
  case Nil
  then show ?case by simp
next
  case (Cons x xs)
  show ?case
  proof (cases "xs = []")
    case True
    then show ?thesis by simp
  next
    case False
    then have "last xs \<noteq> []" using Cons.prems by simp
    with False have "join sep xs \<noteq> []" by (rule join_nonempty)
    then show ?thesis using Cons False by (simp add: join_Cons)
  qed
qed

lemma join_set: "set (join sep ls) \<subseteq> set sep \<union> \<Union> (set ` set ls)"
  by (induction ls) (auto simp: join_Cons split: if_splits)

lemma has_fence_append_other:
  assumes "c \<noteq> CHR 0x60"
  shows "has_fence (a @ c # b) \<longleftrightarrow> has_fence a \<or> has_fence b"
proof -
  have "sublist ''```'' (a @ c # b) \<longleftrightarrow> sublist ''```'' a \<or> sublist ''```'' (c # b)"
  proof
    assume "sublist ''```'' (a @ c # b)"
    then consider "sublist ''```'' a" | "sublist ''```'' (c # b)"
      | xs1 xs2 where "''```'' = xs1 @ xs2" "suffix xs1 a" "prefix xs2 (c # b)"
      by (auto simp: sublist_append)
    then show "sublist ''```'' a \<or> sublist ''```'' (c # b)"
    proof cases
      case 3
      show ?thesis
      proof (cases xs2)
        case Nil
        then show ?thesis using 3 by auto
      next
        case (Cons y ys)
        then have "y = c" using 3(3) by simp
        moreover have "y \<in> set ''```''" using 3(1) Cons by (metis in_set_conv_decomp)
        ultimately show ?thesis using assms by simp
      qed
    qed auto
  next
    assume "sublist ''```'' a \<or> sublist ''```'' (c # b)"
    then show "sublist ''```'' (a @ c # b)" by (auto simp: sublist_append)
  qed
  moreover have "sublist ''```'' (c # b) \<longleftrightarrow> sublist ''```'' b"
    using assms by (simp add: sublist_Cons_right)
  ultimately show ?thesis by (simp add: has_fence_sublist)
qed

lemma join_no_fence:
  "\<forall>l\<in>set ls. \<not> has_fence l \<Longrightarrow> \<not> has_fence (join '' '' ls)"
proof (induction ls)
  case Nil
  show ?case by simp
next
  case (Cons x xs)
  then show ?case using has_fence_append_other [of "CHR '' ''" x "join '' '' xs"]
    by (auto simp: join_Cons)
qed

lemma has_fence_mono: "sublist a b \<Longrightarrow> has_fence a \<Longrightarrow> has_fence b"
  unfolding has_fence_sublist by (rule sublist_order.order_trans)

section \<open>What the sanitizer always returns\<close>

lemma joined_query_lines:
  "\<exists>ls. joined_query raw = join '' '' (sql_lines ls)"
  by (auto simp: joined_query_def Let_def)

lemma sql_lines_trimmed:
  assumes "l \<in> set (sql_lines ls)"
  shows "l \<noteq> [] \<and> \<not> isspace (hd l) \<and> \<not> isspace (last l)"
proof -
  from sql_lines_kept [OF assms] obtain k where "l \<noteq> []" "l = strip k" by auto
  then show ?thesis using strip_ends [of k] by simp
qed

lemma joined_sql_lines_ends:
  assumes "sql_lines ls \<noteq> []"
  shows "join sep (sql_lines ls) \<noteq> [] \<and>
         hd (join sep (sql_lines ls)) = hd (hd (sql_lines ls)) \<and>
         last (join sep (sql_lines ls)) = last (last (sql_lines ls))"
proof -
  have h: "hd (sql_lines ls) \<in> set (sql_lines ls)" "last (sql_lines ls) \<in> set (sql_lines ls)"
    using assms by simp_all
  then have "hd (sql_lines ls) \<noteq> []" "last (sql_lines ls) \<noteq> []"
    using sql_lines_trimmed by blast+
  then show ?thesis using assms join_hd [of "sql_lines ls" sep] join_last [of "sql_lines ls" sep]
    by simp
qed

lemma not_isspace_semicolon: "\<not> isspace CHR '';''"
  by (simp add: isspace_def)

lemma clean_sql_query_ends: "endswith (clean_sql_query raw) '';''"
  by (auto simp: clean_sql_query_def Let_def endswith_semicolon)

lemma clean_sql_query_hd: "\<not> isspace (hd (clean_sql_query raw))"
proof -
  obtain ls where j: "joined_query raw = join '' '' (sql_lines ls)"
    using joined_query_lines by blast
  show ?thesis
  proof (cases "sql_lines ls = []")
    case True
    then have "joined_query raw = []" using j by simp
    then show ?thesis by (simp add: clean_sql_query_def endswith_def not_isspace_semicolon)
  next
    case False
    from joined_sql_lines_ends [OF False, of "'' ''"]
    have ne: "joined_query raw \<noteq> []" and h: "hd (joined_query raw) = hd (hd (sql_lines ls))"
      using j by simp_all
    have "hd (sql_lines ls) \<in> set (sql_lines ls)" using False by simp
    then have "\<not> isspace (hd (hd (sql_lines ls)))" using sql_lines_trimmed by blast
    then show ?thesis using ne h by (simp add: clean_sql_query_def Let_def)
  qed
qed

lemma clean_sql_query_trimmed: "strip (clean_sql_query raw) = clean_sql_query raw"
proof (rule strip_id)
  show "clean_sql_query raw \<noteq> []" by (rule clean_sql_query_nonempty)
  show "\<not> isspace (hd (clean_sql_query raw))" by (rule clean_sql_query_hd)
  have "last (clean_sql_query raw) = CHR '';''"
    using clean_sql_query_ends [of raw] by (simp add: endswith_semicolon)
  then show "\<not> isspace (last (clean_sql_query raw))" by (simp add: not_isspace_semicolon)
qed

lemma startswith_hash: "startswith s ''#'' \<longleftrightarrow> s \<noteq> [] \<and> hd s = CHR ''#''"
  by (cases s) simp_all

lemma startswith_dashes_append:
  assumes "x \<noteq> []" and "\<not> startswith x ''--''" and "r = [] \<or> hd r \<noteq> CHR ''-''"
  shows "\<not> startswith (x @ r) ''--''"
proof (cases x)
  case Nil
  then show ?thesis using assms by simp
next
  case (Cons c x')
  show ?thesis
  proof (cases x')
    case Nil
    then show ?thesis using assms Cons by (cases r) auto
  next
    case (Cons d x'')
    then show ?thesis using assms \<open>x = c # x'\<close> by simp
  qed
qed

lemma clean_sql_query_shape:
  "clean_sql_query raw = '';'' \<or>
   (\<exists>x r. x \<noteq> [] \<and> \<not> startswith x ''#'' \<and> \<not> startswith x ''--'' \<and>
      (r = [] \<or> hd r \<noteq> CHR ''-'') \<and> clean_sql_query raw = x @ r)"
proof -
  obtain ls where j: "joined_query raw = join '' '' (sql_lines ls)"
    using joined_query_lines by blast
  show ?thesis
  proof (cases "sql_lines ls")
    case Nil
    then have "joined_query raw = []" using j by simp
    then show ?thesis by (simp add: clean_sql_query_def endswith_def)
  next
    case (Cons x xs)
    then have "x \<in> set (sql_lines ls)" by simp
    then have x: "x \<noteq> []" "\<not> startswith x ''#''" "\<not> startswith x ''--''"
      using sql_lines_kept by blast+
    let ?t = "if endswith (joined_query raw) '';'' then [] else '';''"
    let ?r = "(if xs = [] then [] else '' '' @ join '' '' xs) @ ?t"
    have "clean_sql_query raw = x @ ?r"
      using j Cons by (simp add: clean_sql_query_def Let_def join_Cons)
    moreover have "?r = [] \<or> hd ?r \<noteq> CHR ''-''" by simp
    ultimately show ?thesis using x by blast
  qed
qed

lemma clean_sql_query_no_hash: "\<not> startswith (clean_sql_query raw) ''#''"
  using clean_sql_query_shape [of raw] by (auto simp: startswith_hash)

lemma clean_sql_query_no_dashes: "\<not> startswith (clean_sql_query raw) ''--''"
  using clean_sql_query_shape [of raw] startswith_dashes_append by auto

lemma joined_query_unfold:
  "joined_query raw =
     join '' '' (sql_lines (split (if startswith (strip raw) ''```''
        then re_sub_fence (strip raw) else strip raw) CHR ''\<newline>''))"
  by (simp add: joined_query_def Let_def)

lemma sql_lines_of_split:
  assumes "l \<in> set (sql_lines (split q sep))"
  shows "sublist l q \<and> sep \<notin> set l"
proof -
  from sql_lines_kept [OF assms] obtain k where k: "k \<in> set (split q sep)" "l = strip k" by auto
  have "sublist l k" using k(2) by (simp add: strip_sublist)
  moreover have "sublist k q" using k(1) by (rule split_lines_sublist)
  moreover have "sep \<notin> set k" using k(1) by (rule split_lines_no_sep)
  ultimately show ?thesis
    using set_mono_sublist [of l k] sublist_order.order_trans [of l k q] by auto
qed

lemma joined_query_no_newline: "CHR ''\<newline>'' \<notin> set (joined_query raw)"
proof
  assume a: "CHR ''\<newline>'' \<in> set (joined_query raw)"
  let ?q = "if startswith (strip raw) ''```'' then re_sub_fence (strip raw) else strip raw"
  from a have "CHR ''\<newline>'' \<in> set '' '' \<union> \<Union> (set ` set (sql_lines (split ?q CHR ''\<newline>'')))"
    using join_set [of "'' ''" "sql_lines (split ?q CHR ''\<newline>'')"]
    unfolding joined_query_unfold by blast
  then obtain l where "l \<in> set (sql_lines (split ?q CHR ''\<newline>''))" "CHR ''\<newline>'' \<in> set l"
    by auto
  then show False using sql_lines_of_split by blast
qed

lemma clean_sql_query_no_newline: "CHR ''\<newline>'' \<notin> set (clean_sql_query raw)"
  using joined_query_no_newline [of raw] by (simp add: clean_sql_query_def Let_def)

lemma joined_query_no_fence:
  assumes "\<not> has_fence (if startswith (strip raw) ''```'' then re_sub_fence (strip raw) else strip raw)"
  shows "\<not> has_fence (joined_query raw)"
proof -
  let ?q = "if startswith (strip raw) ''```'' then re_sub_fence (strip raw) else strip raw"
  have "\<forall>l\<in>set (sql_lines (split ?q CHR ''\<newline>'')). \<not> has_fence l"
    using sql_lines_of_split has_fence_mono assms by blast
  then show ?thesis unfolding joined_query_unfold by (rule join_no_fence)
qed

lemma clean_sql_query_fence: "has_fence (clean_sql_query raw) \<longleftrightarrow> has_fence (joined_query raw)"
  using has_fence_append_other [of "CHR '';''" "joined_query raw" "[]"]
  by (simp add: clean_sql_query_def Let_def)

lemma clean_sql_query_fenced_no_fence:
  assumes "startswith (strip raw) ''```''"
  shows "\<not> has_fence (clean_sql_query raw)"
proof -
  have "\<not> has_fence (joined_query raw)"
    by (rule joined_query_no_fence) (simp add: assms re_sub_fence_no_fence del: startswith.simps)
  then show ?thesis by (simp add: clean_sql_query_fence)
qed

section \<open>Fixed points and fenced completions\<close>

lemma has_fence_startswith: "startswith s ''```'' \<Longrightarrow> has_fence s"
  by (cases s) simp_all

lemma clean_sql_query_fixed:
  assumes "strip y = y" and "CHR ''\<newline>'' \<notin> set y" and "endswith y '';''"
    and "\<not> startswith y ''```''" and "\<not> startswith y ''#''" and "\<not> startswith y ''--''"
  shows "clean_sql_query y = y"
proof -
  have ne: "y \<noteq> []" using assms(3) by (simp add: endswith_semicolon)
  have "split y CHR ''\<newline>'' = [y]" using assms(2) by (rule split_no_sep)
  then have "joined_query y = y"
    using assms(1,4,5,6) ne by (simp add: joined_query_unfold Let_def del: startswith.simps)
  then show ?thesis using assms(3) by (simp add: clean_sql_query_def)
qed

lemma startswith_strip_fence:
  assumes "startswith raw ''```''"
  shows "startswith (strip raw) ''```''"
proof -
  from assms obtain t where t: "raw = ''```'' @ t"
    by (auto simp: startswith_prefix prefix_def)
  have "strip (''```'' @ t) = ''```'' @ rev (dropWhile isspace (rev t))"
    by (rule strip_keeps_word) (simp_all add: isspace_def)
  then show ?thesis using t by simp
qed

lemma startswith_fence_append:
  assumes "\<not> startswith a ''```''" and "c \<noteq> CHR 0x60"
  shows "\<not> startswith (a @ c # b) ''```''"
proof (cases a)
  case Nil
  then show ?thesis using assms by simp
next
  case (Cons x xs)
  show ?thesis
  proof (cases xs)
    case Nil
    then show ?thesis using assms Cons by simp
  next
    case (Cons y ys)
    then show ?thesis using assms \<open>a = x # xs\<close> by (cases ys) auto
  qed
qed

lemma startswith_longer: "\<not> startswith s p \<Longrightarrow> \<not> startswith s (p @ q)"
  by (induction s p rule: startswith.induct) auto

lemma re_sub_fence_keep:
  assumes "\<not> startswith (c # cs) ''```''"
  shows "re_sub_fence (c # cs) = c # re_sub_fence cs"
proof -
  have "\<not> startswith (c # cs) (''```'' @ ''sql\<newline>'')" "\<not> startswith (c # cs) (''```'' @ ''\<newline>'')"
    using assms by (rule startswith_longer)+
  then show ?thesis using assms by (simp del: startswith.simps)
qed

lemma re_sub_fence_plain:
  assumes "\<not> has_fence x"
  shows "re_sub_fence (x @ CHR ''\<newline>'' # y) = x @ CHR ''\<newline>'' # re_sub_fence y"
  using assms
proof (induction x)
  case Nil
  have "re_sub_fence (CHR ''\<newline>'' # y) = CHR ''\<newline>'' # re_sub_fence y"
    by (rule re_sub_fence_keep) simp
  then show ?case by simp
next
  case (Cons c x)
  then have a: "\<not> startswith (c # x) ''```''" and b: "\<not> has_fence x" by simp_all
  have "\<not> startswith ((c # x) @ CHR ''\<newline>'' # y) ''```''"
    using a by (rule startswith_fence_append) simp
  then have "re_sub_fence (c # x @ CHR ''\<newline>'' # y) = c # re_sub_fence (x @ CHR ''\<newline>'' # y)"
    using re_sub_fence_keep [of c "x @ CHR ''\<newline>'' # y"] by simp
  then show ?case using Cons.IH [OF b] by simp
qed

lemma joined_query_plain:
  assumes "\<not> has_fence x"
  shows "joined_query x = join '' '' (sql_lines (split x CHR ''\<newline>''))"
proof -
  have "\<not> has_fence (strip x)" using assms has_fence_mono strip_sublist by blast
  then have "\<not> startswith (strip x) ''```''" using has_fence_startswith by blast
  then show ?thesis by (simp add: joined_query_unfold sql_lines_strip del: startswith.simps)
qed

lemma joined_query_wrapped:
  assumes "\<not> has_fence x" and "re_sub_fence (opener @ x @ ''\<newline>```'') = re_sub_fence (x @ ''\<newline>```'')"
    and "startswith opener ''```''"
  shows "joined_query (opener @ x @ ''\<newline>```'') = joined_query x"
proof -
  let ?raw = "opener @ x @ ''\<newline>```''"
  obtain o' where o: "opener = CHR 0x60 # o'" using assms(3) by (cases opener) auto
  have s: "strip ?raw = ?raw"
    by (rule strip_id) (simp_all add: isspace_def o)
  have f: "startswith ?raw ''```''" using assms(3) by (auto simp: startswith_prefix prefix_def)
  have "re_sub_fence ?raw = x @ CHR ''\<newline>'' # re_sub_fence ''```''"
    using assms(2) re_sub_fence_plain [OF assms(1), of "''```''"] by simp
  then have r: "re_sub_fence ?raw = x @ [CHR ''\<newline>'']" by simp
  have "split (x @ [CHR ''\<newline>'']) CHR ''\<newline>'' = split x CHR ''\<newline>'' @ [[]]"
    using split_append_sep [of x "CHR ''\<newline>''" "[]"] by simp
  then have "sql_lines (split (re_sub_fence ?raw) CHR ''\<newline>'') = sql_lines (split x CHR ''\<newline>'')"
    using r by (simp add: sql_lines_append Let_def strip_Nil)
  then have "joined_query ?raw = join '' '' (sql_lines (split x CHR ''\<newline>''))"
    using s f by (simp only: joined_query_unfold if_True)
  then show ?thesis using joined_query_plain [OF assms(1)] by simp
qed

lemma clean_sql_query_wrapped_sql:
  assumes "\<not> has_fence x"
  shows "clean_sql_query (''```sql\<newline>'' @ x @ ''\<newline>```'') = clean_sql_query x"
proof -
  have "joined_query (''```sql\<newline>'' @ x @ ''\<newline>```'') = joined_query x"
    by (rule joined_query_wrapped [OF assms]) simp_all
  then show ?thesis by (simp only: clean_sql_query_def)
qed

lemma clean_sql_query_wrapped_bare:
  assumes "\<not> has_fence x"
  shows "clean_sql_query (''```\<newline>'' @ x @ ''\<newline>```'') = clean_sql_query x"
proof -
  have "joined_query (''```\<newline>'' @ x @ ''\<newline>```'') = joined_query x"
    by (rule joined_query_wrapped [OF assms]) simp_all
  then show ?thesis by (simp only: clean_sql_query_def)
qed

section \<open>The claims\<close>

text \<open>
  C1, as the code has it. When generation succeeds and the \<open>try\<close> block of
  \<open>execute_query\<close> raises (a refused connection included), \<open>query_from_text\<close> returns the
  sanitized statement, an empty result list, a count of 0 and an \<open>error\<close> entry that is
  \<open>None\<close>: the exception is swallowed by \<open>execute_query\<close> and never reaches the outcome.
\<close>

theorem execute_failure_outcome:
  assumes "sql_chain_run question = Inr raw"
    and "execute_try db g (clean_sql_query raw) = (Inl e, g')"
  shows "query_from_text sql_chain_run db g question =
     ([(''question'', PyStr question),
       (''sql_query'', PyStr (clean_sql_query raw)),
       (''results'', PyList []),
       (''num_results'', PyInt 0),
       (''error'', PyNone)],
      g'\<lparr>execute_calls := execute_calls g' @ [clean_sql_query raw]\<rparr>)"
  using assms
  by (simp add: query_from_text_def generate_sql_query_def execute_query_def
      clean_sql_query_nonempty)

theorem execute_failure_outcome_witness:
  "(\<lambda>q. Inr ''SELECT COUNT(*) FROM campaign_data'') ''How many people are there in the database?''
     = (Inr ''SELECT COUNT(*) FROM campaign_data'' :: exn + string) \<and>
   execute_try refusing_db (init []) (clean_sql_query ''SELECT COUNT(*) FROM campaign_data'')
     = (Inl (Exception ''connection refused''), init []) \<and>
   query_from_text (\<lambda>q. Inr ''SELECT COUNT(*) FROM campaign_data'') refusing_db (init [])
       ''How many people are there in the database?'' =
     ([(''question'', PyStr ''How many people are there in the database?''),
       (''sql_query'', PyStr ''SELECT COUNT(*) FROM campaign_data;''),
       (''results'', PyList []),
       (''num_results'', PyInt 0),
       (''error'', PyNone)],
      (init [])\<lparr>execute_calls := [''SELECT COUNT(*) FROM campaign_data;'']\<rparr>)"
proof -
  have e: "execute_try refusing_db (init []) (clean_sql_query ''SELECT COUNT(*) FROM campaign_data'')
     = (Inl (Exception ''connection refused''), init [])"
    by (simp add: execute_try_def connect_db_def refusing_db_def demo_db_def init_def)
  show ?thesis
    using execute_failure_outcome [where sql_chain_run = "\<lambda>q. Inr ''SELECT COUNT(*) FROM campaign_data''"
        and question = "''How many people are there in the database?''", OF refl e] e
    by (simp add: demo_clean init_def)
qed

text \<open>
  C1 as stated fails: with a database that refuses the connection, the \<open>error\<close> entry of the
  outcome is \<open>None\<close>.
\<close>

theorem execute_failure_error_counterexample:
  "map_of (fst (query_from_text (\<lambda>q. Inr ''SELECT COUNT(*) FROM campaign_data'') refusing_db
       (init []) ''How many people are there in the database?'')) ''error'' = Some PyNone"
  by (simp add: query_from_text_def generate_sql_query_def execute_query_def demo_clean
      execute_try_def connect_db_def refusing_db_def demo_db_def init_def)

text \<open>
  C3, as the code has it. When the model call returns an empty or whitespace-only
  completion, \<open>generate_sql_query\<close> does not fail: it returns the statement \<open>;\<close>, and
  \<open>query_from_text\<close> passes that statement to \<open>execute_query\<close>.
\<close>

theorem blank_completion_statement:
  assumes "sql_chain_run question = Inr raw" and "list_all isspace raw"
  shows "generate_sql_query sql_chain_run question = Some '';'' \<and>
         execute_calls (snd (query_from_text sql_chain_run db g question))
           = execute_calls g @ ['';'']"
proof -
  have c: "clean_sql_query raw = '';''"
    using assms(2) by (simp add: clean_sql_query_blank list_all_iff)
  have gen: "generate_sql_query sql_chain_run question = Some '';''"
    using assms(1) c by (simp add: generate_sql_query_def)
  have "execute_calls (snd (query_from_text sql_chain_run db g question))
      = execute_calls (snd (execute_try db g '';'')) @ ['';'']"
    using gen by (simp add: query_from_text_def execute_query_def split: prod.splits)
  then show ?thesis using gen by (simp add: execute_try_calls)
qed

theorem blank_completion_statement_witness:
  "(\<lambda>q. Inr ''  '') ''How many?'' = (Inr ''  '' :: exn + string) \<and>
   list_all isspace ''  '' \<and>
   generate_sql_query (\<lambda>q. Inr ''  '') ''How many?'' = Some '';'' \<and>
   execute_calls (snd (query_from_text (\<lambda>q. Inr ''  '') demo_db (init []) ''How many?''))
     = ['';'']"
  using blank_completion_statement [where sql_chain_run = "\<lambda>q. Inr ''  ''"
      and question = "''How many?''" and raw = "''  ''" and db = demo_db and g = "init []"]
  by (simp add: isspace_def init_def)

text \<open>
  C3 as stated fails: for the empty completion and for a completion of two spaces,
  generation produces a statement instead of failing.
\<close>

theorem blank_completion_counterexample:
  "generate_sql_query (\<lambda>q. Inr []) ''How many?'' = Some '';'' \<and>
   generate_sql_query (\<lambda>q. Inr ''  '') ''How many?'' = Some '';''"
  by (simp add: generate_sql_query_def clean_sql_query_def joined_query_def strip_def
      isspace_def endswith_def)

text \<open>
  C4, at a failing model call. The outcome of \<open>query_from_text\<close> has the four entries
  \<open>question\<close>, \<open>sql_query\<close> (\<open>None\<close>), \<open>results\<close> (empty) and \<open>error\<close>, the generator is
  unchanged (no call of \<open>execute_query\<close> was recorded), and there is no \<open>num_results\<close>
  entry.
\<close>

theorem generation_failure_without_count:
  "query_from_text (\<lambda>q. Inl (Exception ''model call failed'')) demo_db (init [])
       ''How many people are there in the database?'' =
     ([(''question'', PyStr ''How many people are there in the database?''),
       (''sql_query'', PyNone),
       (''results'', PyList []),
       (''error'', PyStr ''Failed to generate SQL query'')], init []) \<and>
   map_of (fst (query_from_text (\<lambda>q. Inl (Exception ''model call failed'')) demo_db (init [])
       ''How many people are there in the database?'')) ''num_results'' = None"
  by (simp add: query_from_text_def generate_sql_query_def)

text \<open>
  C8. When the joined text does not end in \<open>;\<close>, the sanitizer returns it with one \<open>;\<close>
  appended; when it does, the sanitizer returns it as it is.
\<close>

theorem semicolon_step:
  "(\<not> endswith (joined_query raw) '';'' \<longrightarrow> clean_sql_query raw = joined_query raw @ '';'') \<and>
   (endswith (joined_query raw) '';'' \<longrightarrow> clean_sql_query raw = joined_query raw)"
  by (simp add: clean_sql_query_def)

theorem semicolon_step_witness:
  "\<not> endswith (joined_query ''SELECT 1'') '';'' \<and> clean_sql_query ''SELECT 1'' = ''SELECT 1;'' \<and>
   endswith (joined_query ''SELECT 2;'') '';'' \<and> clean_sql_query ''SELECT 2;'' = ''SELECT 2;''"
  using semicolon_step [of "''SELECT 1''"] semicolon_step [of "''SELECT 2;''"]
  by (simp add: joined_query_def strip_def isspace_def endswith_def)

text \<open>
  C9. When the model call returns a completion and the \<open>try\<close> block of \<open>execute_query\<close>
  ends without an exception, the outcome carries the sanitized statement, the rows the
  executor built, in their order, their number as the count, and an \<open>error\<close> entry that is
  \<open>None\<close>.
\<close>

theorem success_outcome:
  assumes "sql_chain_run question = Inr raw"
    and "execute_try db g (clean_sql_query raw) = (Inr rows, g')"
  shows "query_from_text sql_chain_run db g question =
     ([(''question'', PyStr question),
       (''sql_query'', PyStr (clean_sql_query raw)),
       (''results'', PyList rows),
       (''num_results'', PyInt (int (length rows))),
       (''error'', PyNone)],
      g'\<lparr>execute_calls := execute_calls g' @ [clean_sql_query raw]\<rparr>)"
  using assms
  by (simp add: query_from_text_def generate_sql_query_def execute_query_def
      clean_sql_query_nonempty)

theorem success_outcome_witness:
  "(\<lambda>q. Inr ''SELECT COUNT(*) FROM campaign_data'') ''How many people are there in the database?''
     = (Inr ''SELECT COUNT(*) FROM campaign_data'' :: exn + string) \<and>
   execute_try demo_db (init []) (clean_sql_query ''SELECT COUNT(*) FROM campaign_data'')
     = (Inr [[(''count'', 3)]], (init [])\<lparr>conn := Some (), cursor := Some ()\<rparr>) \<and>
   query_from_text (\<lambda>q. Inr ''SELECT COUNT(*) FROM campaign_data'') demo_db (init [])
       ''How many people are there in the database?'' =
     ([(''question'', PyStr ''How many people are there in the database?''),
       (''sql_query'', PyStr ''SELECT COUNT(*) FROM campaign_data;''),
       (''results'', PyList [[(''count'', 3)]]),
       (''num_results'', PyInt 1),
       (''error'', PyNone)],
      (init [])\<lparr>conn := Some (), cursor := Some (),
         execute_calls := [''SELECT COUNT(*) FROM campaign_data;'']\<rparr>)"
proof -
  have e: "execute_try demo_db (init []) (clean_sql_query ''SELECT COUNT(*) FROM campaign_data'')
     = (Inr [[(''count'', 3)]], (init [])\<lparr>conn := Some (), cursor := Some ()\<rparr>)"
    by (simp add: execute_try_def connect_db_def demo_db_def init_def dict_def)
  show ?thesis
    using success_outcome [where sql_chain_run = "\<lambda>q. Inr ''SELECT COUNT(*) FROM campaign_data''"
        and question = "''How many people are there in the database?''", OF refl e] e
    by (simp add: demo_clean init_def)
qed

text \<open>
  C10, as the code has it. On a generator whose \<open>conn\<close> and \<open>cursor\<close> are both \<open>None\<close>,
  as the constructor leaves them, \<open>close_db\<close> makes neither \<open>close\<close> call, whatever those
  calls would do: all it executes is the final \<open>print\<close>, so it raises exactly what that
  \<open>print\<close> raises, and returns without an exception when the message can be written.
\<close>

theorem close_db_never_connected:
  "conn g = None \<Longrightarrow> cursor g = None \<Longrightarrow> close_db db out g = print out closed_message"
  by (simp add: close_db_def)

theorem close_db_never_connected_witness:
  "conn (init []) = None \<and> cursor (init []) = None \<and>
   print utf8_stdout closed_message = None \<and>
   close_db (demo_db\<lparr>cursor_close := Some (Exception ''closed''),
       conn_close := Some (Exception ''closed'')\<rparr>) utf8_stdout (init []) = None"
  using close_db_never_connected [of "init []" _ utf8_stdout]
  by (simp add: init_def print_def utf8_stdout_def)

text \<open>
  C10 as stated fails: on a standard output with the ASCII encoding the check mark of the
  message cannot be written, and \<open>close_db\<close> on a freshly constructed generator raises.
\<close>

theorem close_db_never_connected_counterexample:
  "close_db demo_db ascii_stdout (init []) = Some (Exception ''UnicodeEncodeError'')"
  by (simp add: close_db_def init_def print_def closed_message_def ascii_stdout_def)

text \<open>
  C2, as the code has it. When every line of the raw completion is, after trimming, empty
  or begins with \<open>#\<close> or \<open>--\<close>, the sanitizer does not fail: it returns the bare
  statement \<open>;\<close>.
\<close>

theorem comment_only_completion:
  assumes "list_all (\<lambda>line. strip line = [] \<or> startswith (strip line) ''#'' \<or>
             startswith (strip line) ''--'') (split raw CHR ''\<newline>'')"
  shows "clean_sql_query raw = '';''"
proof -
  have none: "sql_lines (split (strip raw) CHR ''\<newline>'') = []"
    using assms by (simp only: sql_lines_strip sql_lines_none)
  have "\<not> startswith (strip raw) ''```''"
  proof
    assume f: "startswith (strip raw) ''```''"
    then obtain t where t: "strip raw = CHR 0x60 # t" by (cases "strip raw") auto
    obtain l ls where l: "split t CHR ''\<newline>'' = l # ls"
      using split_nonempty [of t] by (cases "split t CHR ''\<newline>''") auto
    have "strip (CHR 0x60 # l) = CHR 0x60 # rev (dropWhile isspace (rev l))"
      using strip_keeps_word [of "[CHR 0x60]" l] by (simp add: isspace_def)
    then have "sql_lines ((CHR 0x60 # l) # ls) \<noteq> []" by (simp add: Let_def)
    then show False using none t l by simp
  qed
  then have "joined_query raw = []" using none by (simp add: joined_query_unfold)
  then show ?thesis by (simp add: clean_sql_query_def endswith_def)
qed

theorem comment_only_completion_witness:
  "list_all (\<lambda>line. strip line = [] \<or> startswith (strip line) ''#'' \<or>
      startswith (strip line) ''--'')
     (split ''# count the people\<newline>  -- no statement here\<newline>'' CHR ''\<newline>'') \<and>
   clean_sql_query ''# count the people\<newline>  -- no statement here\<newline>'' = '';''"
proof -
  have h: "list_all (\<lambda>line. strip line = [] \<or> startswith (strip line) ''#'' \<or>
      startswith (strip line) ''--'')
     (split ''# count the people\<newline>  -- no statement here\<newline>'' CHR ''\<newline>'')"
    by (simp add: strip_def isspace_def)
  show ?thesis using comment_only_completion [OF h] h by simp
qed

text \<open>
  C2 as stated fails: a completion of two comment lines is sanitized to \<open>;\<close>, and
  \<open>query_from_text\<close> sends that statement to the database.
\<close>

theorem comment_only_counterexample:
  "clean_sql_query ''# count the people\<newline>-- no statement here'' = '';'' \<and>
   execute_calls (snd (query_from_text (\<lambda>q. Inr ''# count the people\<newline>-- no statement here'')
       demo_db (init []) ''How many?'')) = ['';'']"
  by (simp add: query_from_text_def generate_sql_query_def execute_query_def execute_try_def
      connect_db_def demo_db_def init_def dict_def
      clean_sql_query_def joined_query_def strip_def isspace_def endswith_def)

text \<open>
  C5, as the code has it. For every raw completion the sanitized string is non-empty, equal
  to its own trim, on one line, ends with \<open>;\<close>, and does not begin with a comment marker;
  when the trimmed completion begins with a fence it contains no three backticks in a row.
\<close>

theorem sanitized_statement_invariant:
  "clean_sql_query raw \<noteq> [] \<and>
   strip (clean_sql_query raw) = clean_sql_query raw \<and>
   endswith (clean_sql_query raw) '';'' \<and>
   CHR ''\<newline>'' \<notin> set (clean_sql_query raw) \<and>
   \<not> startswith (clean_sql_query raw) ''#'' \<and>
   \<not> startswith (clean_sql_query raw) ''--'' \<and>
   (startswith (strip raw) ''```'' \<longrightarrow> \<not> has_fence (clean_sql_query raw))"
  using clean_sql_query_nonempty clean_sql_query_trimmed clean_sql_query_ends
    clean_sql_query_no_newline clean_sql_query_no_hash clean_sql_query_no_dashes
    clean_sql_query_fenced_no_fence
  by blast

theorem sanitized_statement_invariant_witness:
  "startswith (strip '' ```sql\<newline>SELECT 1 -- one\<newline>```'') ''```'' \<and>
   clean_sql_query '' ```sql\<newline>SELECT 1 -- one\<newline>```'' = ''SELECT 1 -- one;'' \<and>
   \<not> has_fence (clean_sql_query '' ```sql\<newline>SELECT 1 -- one\<newline>```'') \<and>
   strip (clean_sql_query '' ```sql\<newline>SELECT 1 -- one\<newline>```'')
     = clean_sql_query '' ```sql\<newline>SELECT 1 -- one\<newline>```''"
proof -
  have h: "startswith (strip '' ```sql\<newline>SELECT 1 -- one\<newline>```'') ''```''"
    by (simp add: strip_def isspace_def)
  have c: "clean_sql_query '' ```sql\<newline>SELECT 1 -- one\<newline>```'' = ''SELECT 1 -- one;''"
    by (simp add: clean_sql_query_def joined_query_def strip_def isspace_def endswith_def)
  show ?thesis
    using sanitized_statement_invariant [of "'' ```sql\<newline>SELECT 1 -- one\<newline>```''"] h c
    by simp
qed

text \<open>
  C5 as stated fails: a completion that ends in two semicolons keeps both, and a fence in a
  completion that does not begin with one stays in the result.
\<close>

theorem sanitized_statement_counterexample:
  "clean_sql_query ''SELECT 1;;'' = ''SELECT 1;;'' \<and>
   has_fence (clean_sql_query ''SELECT 1 ```'')"
  by (simp add: clean_sql_query_def joined_query_def strip_def isspace_def endswith_def)

text \<open>
  C6, as the code has it. A completion that begins with a fence is returned without any
  three backticks in a row; and a text without three backticks in a row, wrapped in
  \<open>```sql\<close> or \<open>```\<close> on a line before it and \<open>```\<close> on a line after it, is sanitized to
  what the text alone is sanitized to.
\<close>

theorem fenced_completion:
  "(startswith raw ''```'' \<longrightarrow> \<not> has_fence (clean_sql_query raw)) \<and>
   (\<not> has_fence x \<longrightarrow>
      clean_sql_query (''```sql\<newline>'' @ x @ ''\<newline>```'') = clean_sql_query x \<and>
      clean_sql_query (''```\<newline>'' @ x @ ''\<newline>```'') = clean_sql_query x)"
  using startswith_strip_fence clean_sql_query_fenced_no_fence
    clean_sql_query_wrapped_sql clean_sql_query_wrapped_bare
  by blast

theorem fenced_completion_witness:
  "startswith ''```sql\<newline>SELECT name FROM t\<newline>```'' ''```'' \<and>
   \<not> has_fence (clean_sql_query ''```sql\<newline>SELECT name FROM t\<newline>```'') \<and>
   \<not> has_fence ''SELECT name FROM t'' \<and>
   clean_sql_query ''```sql\<newline>SELECT name FROM t\<newline>```'' = clean_sql_query ''SELECT name FROM t'' \<and>
   clean_sql_query ''```\<newline>SELECT name FROM t\<newline>```'' = clean_sql_query ''SELECT name FROM t'' \<and>
   clean_sql_query ''SELECT name FROM t'' = ''SELECT name FROM t;''"
proof -
  have a: "startswith ''```sql\<newline>SELECT name FROM t\<newline>```'' ''```''" by simp
  have b: "\<not> has_fence ''SELECT name FROM t''" by simp
  have c: "clean_sql_query ''SELECT name FROM t'' = ''SELECT name FROM t;''"
    by (simp add: clean_sql_query_def joined_query_def strip_def isspace_def endswith_def)
  show ?thesis
    using fenced_completion [of "''```sql\<newline>SELECT name FROM t\<newline>```''" "''SELECT name FROM t''"] a b c
    by simp
qed

text \<open>
  C6 as stated fails: with a language tag other than \<open>sql\<close> the tag stays in the result,
  and a fence inside the wrapped text is removed although sanitizing that text alone keeps
  it.
\<close>

theorem fenced_completion_counterexample:
  "clean_sql_query ''```postgresql\<newline>SELECT 1;\<newline>```'' = ''postgresql SELECT 1;'' \<and>
   clean_sql_query ''SELECT 1;'' = ''SELECT 1;'' \<and>
   clean_sql_query ''```sql\<newline>SELECT 1 ``` x\<newline>```'' = ''SELECT 1  x;'' \<and>
   clean_sql_query ''SELECT 1 ``` x'' = ''SELECT 1 ``` x;''"
  by (simp add: clean_sql_query_def joined_query_def strip_def isspace_def endswith_def)

text \<open>
  C7. On a string that is one line, equal to its own trim and ending in \<open>;\<close>, sanitizing
  twice gives what sanitizing once gives.
\<close>

theorem sanitize_idempotent:
  assumes "strip x = x" and "CHR ''\<newline>'' \<notin> set x" and "endswith x '';''"
  shows "clean_sql_query (clean_sql_query x) = clean_sql_query x"
proof -
  let ?y = "clean_sql_query x"
  have nf: "\<not> startswith ?y ''```''"
  proof (cases "startswith x ''```''")
    case True
    then have "\<not> has_fence ?y" using assms(1) clean_sql_query_fenced_no_fence [of x] by simp
    then show ?thesis using has_fence_startswith by blast
  next
    case False
    have sp: "split x CHR ''\<newline>'' = [x]" using assms(2) by (rule split_no_sep)
    have "joined_query x = x \<or> joined_query x = []"
      using False assms(1) sp by (simp add: joined_query_unfold Let_def del: startswith.simps)
    then have "?y = x \<or> ?y = '';''"
      using assms(3) by (auto simp: clean_sql_query_def endswith_def)
    then show ?thesis using False by auto
  qed
  show ?thesis
    using clean_sql_query_trimmed clean_sql_query_no_newline clean_sql_query_ends nf
      clean_sql_query_no_hash clean_sql_query_no_dashes
    by (rule clean_sql_query_fixed)
qed

theorem sanitize_idempotent_witness:
  "strip ''```SELECT 1;'' = ''```SELECT 1;'' \<and> CHR ''\<newline>'' \<notin> set ''```SELECT 1;'' \<and>
   endswith ''```SELECT 1;'' '';'' \<and>
   clean_sql_query ''```SELECT 1;'' = ''SELECT 1;'' \<and>
   clean_sql_query (clean_sql_query ''```SELECT 1;'') = clean_sql_query ''```SELECT 1;''"
proof -
  have a: "strip ''```SELECT 1;'' = ''```SELECT 1;''" by (simp add: strip_def isspace_def)
  have b: "CHR ''\<newline>'' \<notin> set ''```SELECT 1;''" by simp
  have c: "endswith ''```SELECT 1;'' '';''" by (simp add: endswith_def)
  have d: "clean_sql_query ''```SELECT 1;'' = ''SELECT 1;''"
    by (simp add: clean_sql_query_def joined_query_def strip_def isspace_def endswith_def)
  show ?thesis using sanitize_idempotent [OF a b c] a b c d by simp
qed

end
